theory Spec2Isabelle
  imports Main
begin

section \<open>The event contribution lifecycle of \<^verbatim>\<open>teacher-event-contribute.js\<close>\<close>

text \<open>
  The server half of the source file keeps mock-exam events in a document store
  (mongoose). This theory embeds the request handlers that create, read, fill, publish
  and delete an event:
  \<^item> \<^verbatim>\<open>POST /api/host/events\<close> (creation),
  \<^item> \<^verbatim>\<open>GET /api/teacher/events/:eventId\<close> (the teacher's own questions),
  \<^item> \<^verbatim>\<open>POST /api/teacher/events/:eventId/contribute\<close>,
  \<^item> \<^verbatim>\<open>POST /api/host/events/:eventId/publish\<close>,
  \<^item> \<^verbatim>\<open>DELETE /api/host/events/:eventId\<close>.

  A handler is a function from the store and the request to a response and the new
  store. Every \<^verbatim>\<open>return res.status(...)\<close> and every \<^verbatim>\<open>throw\<close> that ends in the
  handler's \<^verbatim>\<open>catch\<close> is a \<open>Failure\<close> value. The document a handler loads is a local
  copy: only \<^verbatim>\<open>event.save()\<close> writes it back, and \<^verbatim>\<open>save\<close> itself (the database) is taken
  to succeed. Request bodies carry the JSON types the page's form sends; ids are compared
  as the strings \<^verbatim>\<open>toString()\<close> gives.
\<close>

subsection \<open>Documents (the mongoose schemas)\<close>

type_synonym objectId = string

datatype status = Active | Completed | Published

text \<open>\<^verbatim>\<open>req.teacher\<close>: the authenticated teacher document (\<^verbatim>\<open>_id\<close>, \<^verbatim>\<open>name\<close>, \<^verbatim>\<open>subject\<close>).\<close>

record teacher =
  t_id :: objectId
  t_name :: string
  t_subject :: string

text \<open>
  One element of \<^verbatim>\<open>req.body.questions\<close>. A field the request leaves out is \<open>None\<close>
  (JavaScript's \<^verbatim>\<open>undefined\<close>). The fields carry the JSON types the form sends: text,
  an array of texts, an integer.
\<close>

record questionInput =
  in_question :: "string option"
  in_options :: "string list option"
  in_correctAnswer :: "int option"
  in_imageUrls :: "string list option"
  in_imagePublicIds :: "string list option"

text \<open>An element of \<^verbatim>\<open>subjects[i].questions\<close>; \<^verbatim>\<open>teacherId\<close> is not required by the schema.\<close>

record question =
  question :: string
  options :: "string list"
  correctAnswer :: int
  imageUrls :: "string list"
  imagePublicIds :: "string list"
  teacherId :: "objectId option"
  teacherName :: "string option"

text \<open>
  An element of \<^verbatim>\<open>subjects[i].teacherContributions\<close>. The contribute handler is the only
  writer of this array and always sets \<^verbatim>\<open>teacherId\<close>; it reads it with an unguarded
  \<^verbatim>\<open>tc.teacherId.toString()\<close>.
\<close>

record contribution =
  tc_teacherId :: objectId
  tc_teacherName :: string
  tc_questionCount :: int

record subjectSlot =
  subject :: string
  questions :: "question list"
  questionCount :: int
  teacherContributions :: "contribution list"

text \<open>The event document (\<^verbatim>\<open>jambEventSchema\<close>), without \<^verbatim>\<open>createdAt\<close>; dates are numbers.\<close>

record jambEvent =
  title :: string
  description :: string
  timeLimit :: int
  questionsPerSubject :: int
  deadline :: int
  status :: status
  hostId :: objectId
  shareId :: string
  subjects :: "subjectSlot list"
  totalQuestions :: int

type_synonym db = "objectId \<rightharpoonup> jambEvent"

text \<open>A failed request: the HTTP status, the \<^verbatim>\<open>error\<close> text and the optional \<^verbatim>\<open>details\<close>.\<close>

datatype failure = Failure nat string "string option"

subsection \<open>Library functions of JavaScript\<close>

text \<open>
  \<^verbatim>\<open>String.prototype.trim\<close>, on the ASCII white space and line terminators (the Unicode
  spaces that JavaScript also strips are left in place).
\<close>

definition is_space :: "char \<Rightarrow> bool" where
  "is_space c = (c \<in> set [CHR '' '', CHR 0x09, CHR 0x0A, CHR 0x0B, CHR 0x0C, CHR 0x0D])"

definition trim :: "string \<Rightarrow> string" where
  "trim s = rev (dropWhile is_space (rev (dropWhile is_space s)))"

text \<open>\<^verbatim>\<open>Array.prototype.findIndex\<close>; \<open>None\<close> is the \<^verbatim>\<open>-1\<close> of JavaScript.\<close>

fun findIndex :: "('a \<Rightarrow> bool) \<Rightarrow> 'a list \<Rightarrow> nat option" where
  "findIndex P [] = None"
| "findIndex P (x # xs) = (if P x then Some 0 else map_option Suc (findIndex P xs))"

text \<open>\<^verbatim>\<open>Array.prototype.join\<close>.\<close>

fun join :: "string \<Rightarrow> string list \<Rightarrow> string" where
  "join sep [] = []"
| "join sep [x] = x"
| "join sep (x # y # ys) = x @ sep @ join sep (y # ys)"

text \<open>
  An integer inside a template literal: its decimal digits, with a sign. (JavaScript
  prints a number from \<open>10\<^sup>2\<^sup>1\<close> on in exponent form; the counts here stay far below.)
\<close>

definition digit_char :: "nat \<Rightarrow> char" where
  "digit_char d = ''0123456789'' ! d"

fun nat_toString :: "nat \<Rightarrow> string" where
  "nat_toString n =
     (if n < 10 then [digit_char n] else nat_toString (n div 10) @ [digit_char (n mod 10)])"

definition number_toString :: "int \<Rightarrow> string" where
  "number_toString i =
     (if i < 0 then CHR ''-'' # nat_toString (nat (- i)) else nat_toString (nat i))"

subsection \<open>Creating an event\<close>

text \<open>
  \<^verbatim>\<open>POST /api/host/events\<close>: five fixed subjects, each slot empty; \<^verbatim>\<open>status\<close> and
  \<^verbatim>\<open>totalQuestions\<close> take the schema's defaults.
\<close>

definition subject_names :: "string list" where
  "subject_names = [''Mathematics'', ''English'', ''Physics'', ''Chemistry'', ''Biology'']"

definition empty_slot :: "string \<Rightarrow> subjectSlot" where
  "empty_slot s =
     \<lparr>subject = s, questions = [], questionCount = 0, teacherContributions = []\<rparr>"

definition create_event ::
  "string \<Rightarrow> string \<Rightarrow> int \<Rightarrow> int \<Rightarrow> int \<Rightarrow> objectId \<Rightarrow> string \<Rightarrow> jambEvent" where
  "create_event ttl descr lim qps due host sid =
     \<lparr>title = ttl, description = descr, timeLimit = lim, questionsPerSubject = qps,
      deadline = due, status = Active, hostId = host, shareId = sid,
      subjects = map empty_slot subject_names, totalQuestions = 0\<rparr>"

subsection \<open>Reading the teacher's own questions\<close>

text \<open>
  \<^verbatim>\<open>GET /api/teacher/events/:eventId\<close>: \<^verbatim>\<open>mySubject\<close> is the first slot with the teacher's
  subject, \<^verbatim>\<open>existingQuestions\<close> the questions of that slot that carry the teacher's id.
\<close>

definition mySubject :: "teacher \<Rightarrow> jambEvent \<Rightarrow> subjectSlot option" where
  "mySubject t e = find (\<lambda>s. subject s = t_subject t) (subjects e)"

definition existingQuestions :: "teacher \<Rightarrow> jambEvent \<Rightarrow> question list" where
  "existingQuestions t e =
     (case mySubject t e of
        None \<Rightarrow> []
      | Some s \<Rightarrow> filter (\<lambda>q. teacherId q \<noteq> None \<and> teacherId q = Some (t_id t)) (questions s))"

text \<open>The ledger entry of a teacher: \<^verbatim>\<open>teacherContributions.find(...)\<close>.\<close>

definition existingContribution :: "teacher \<Rightarrow> subjectSlot \<Rightarrow> contribution option" where
  "existingContribution t s =
     find (\<lambda>tc. tc_teacherId tc = t_id t) (teacherContributions s)"

subsection \<open>Contributing questions\<close>

text \<open>
  The body of \<^verbatim>\<open>questions.map(q => ...)\<close> for one element: the three checks in the
  source's order, each throwing an \<^verbatim>\<open>Error\<close> with the given message, then the stored
  question. \<^verbatim>\<open>!q.question\<close> holds for a missing and for an empty text; \<^verbatim>\<open>!q.options\<close>
  only for a missing array. \<^verbatim>\<open>parseInt\<close> of an integer is that integer.
\<close>

definition newQuestion :: "teacher \<Rightarrow> questionInput \<Rightarrow> string + question" where
  "newQuestion t q =
     (case (in_question q, in_options q, in_correctAnswer q) of
        (Some txt, Some opts, Some c) \<Rightarrow>
          if txt = [] then Inl ''Invalid question data: missing required fields''
          else if length opts \<noteq> 4 then Inl ''Each question must have exactly 4 options''
          else if c < 0 \<or> c > 3 then Inl ''Correct answer must be between 0 and 3''
          else Inr \<lparr>question = trim txt, options = map trim opts, correctAnswer = c,
                    imageUrls = (case in_imageUrls q of None \<Rightarrow> [] | Some us \<Rightarrow> us),
                    imagePublicIds = (case in_imagePublicIds q of None \<Rightarrow> [] | Some ps \<Rightarrow> ps),
                    teacherId = Some (t_id t), teacherName = Some (t_name t)\<rparr>
      | _ \<Rightarrow> Inl ''Invalid question data: missing required fields'')"

text \<open>\<^verbatim>\<open>questions.map\<close>: left to right, the first \<^verbatim>\<open>throw\<close> ends the whole map.\<close>

fun newQuestions :: "teacher \<Rightarrow> questionInput list \<Rightarrow> string + question list" where
  "newQuestions t [] = Inr []"
| "newQuestions t (q # qs) =
     (case newQuestion t q of
        Inl m \<Rightarrow> Inl m
      | Inr x \<Rightarrow> (case newQuestions t qs of Inl m \<Rightarrow> Inl m | Inr xs \<Rightarrow> Inr (x # xs)))"

text \<open>
  The ledger update: the first entry of the teacher gets the new count in place, or a new
  entry is pushed at the end.
\<close>

fun set_first_count :: "objectId \<Rightarrow> int \<Rightarrow> contribution list \<Rightarrow> contribution list" where
  "set_first_count tid n [] = []"
| "set_first_count tid n (tc # tcs) =
     (if tc_teacherId tc = tid then tc\<lparr>tc_questionCount := n\<rparr> # tcs
      else tc # set_first_count tid n tcs)"

definition update_contributions :: "teacher \<Rightarrow> int \<Rightarrow> subjectSlot \<Rightarrow> contribution list" where
  "update_contributions t n s =
     (case existingContribution t s of
        Some _ \<Rightarrow> set_first_count (t_id t) n (teacherContributions s)
      | None \<Rightarrow> teacherContributions s @
          [\<lparr>tc_teacherId = t_id t, tc_teacherName = t_name t, tc_questionCount = n\<rparr>])"

text \<open>The JSON body of a successful contribution.\<close>

record contributeResponse =
  r_questionCount :: int
  r_totalSubjectQuestions :: int
  r_eventStatus :: status

text \<open>
  \<^verbatim>\<open>event.subjects.every(subject => subject.questionCount >= event.questionsPerSubject)\<close>.
\<close>

definition allSubjectsComplete :: "jambEvent \<Rightarrow> bool" where
  "allSubjectsComplete e =
     list_all (\<lambda>s. questionCount s \<ge> questionsPerSubject e) (subjects e)"

text \<open>
  The handler from the status check to just before \<^verbatim>\<open>event.save()\<close>, on the loaded
  document. The teacher's old questions are filtered out of the local copy before the new
  ones are validated; a \<^verbatim>\<open>throw\<close> in the validation leaves through the \<^verbatim>\<open>catch\<close>
  (status 500) and the local copy is dropped. \<open>e1\<close>, \<open>e2\<close> and \<open>e3\<close> are the document
  after the slot, the total and the status have been assigned.
\<close>

definition contribute_event ::
  "teacher \<Rightarrow> questionInput list \<Rightarrow> jambEvent \<Rightarrow> failure + jambEvent \<times> contributeResponse" where
  "contribute_event t qs e =
     (if status e \<noteq> Active then Inl (Failure 400 ''Event is not active for contributions'' None)
      else case findIndex (\<lambda>s. subject s = t_subject t) (subjects e) of
        None \<Rightarrow> Inl (Failure 400 ''Subject not found in event'' None)
      | Some i \<Rightarrow>
          let slot = subjects e ! i;
              kept = filter (\<lambda>q. teacherId q = None \<or> teacherId q \<noteq> Some (t_id t))
                       (questions slot)
          in case newQuestions t qs of
               Inl m \<Rightarrow> Inl (Failure 500 ''Failed to save questions'' (Some m))
             | Inr new \<Rightarrow>
                 let pushed = kept @ new;
                     slot1 = slot\<lparr>questions := pushed, questionCount := int (length pushed)\<rparr>;
                     slot2 = slot1\<lparr>teacherContributions :=
                                     update_contributions t (int (length qs)) slot1\<rparr>;
                     e1 = e\<lparr>subjects := (subjects e)[i := slot2]\<rparr>;
                     e2 = e1\<lparr>totalQuestions :=
                               foldl (\<lambda>total s. total + questionCount s) 0 (subjects e1)\<rparr>;
                     e3 = (if allSubjectsComplete e2 \<and> status e2 = Active
                           then e2\<lparr>status := Completed\<rparr> else e2)
                 in Inr (e3, \<lparr>r_questionCount = int (length qs),
                               r_totalSubjectQuestions = questionCount (subjects e3 ! i),
                               r_eventStatus = status e3\<rparr>))"

text \<open>
  \<^verbatim>\<open>POST /api/teacher/events/:eventId/contribute\<close>. \<open>None\<close> for the batch is a body
  without a \<^verbatim>\<open>questions\<close> array. The batch is checked before the event is looked up.
\<close>

definition contribute ::
  "db \<Rightarrow> objectId \<Rightarrow> teacher \<Rightarrow> questionInput list option \<Rightarrow>
     (failure + contributeResponse) \<times> db" where
  "contribute store eventId t body =
     (case body of
        None \<Rightarrow> (Inl (Failure 400 ''No questions provided'' None), store)
      | Some qs \<Rightarrow>
          if length qs = 0 then (Inl (Failure 400 ''No questions provided'' None), store)
          else case store eventId of
            None \<Rightarrow> (Inl (Failure 404 ''Event not found'' None), store)
          | Some e \<Rightarrow>
              (case contribute_event t qs e of
                 Inl f \<Rightarrow> (Inl f, store)
               | Inr (e', r) \<Rightarrow> (Inr r, store(eventId \<mapsto> e'))))"

subsection \<open>Publishing\<close>

text \<open>The slots below quota and their rendering in the error text.\<close>

definition incompleteSubjects :: "jambEvent \<Rightarrow> subjectSlot list" where
  "incompleteSubjects e =
     filter (\<lambda>s. questionCount s < questionsPerSubject e) (subjects e)"

definition subjectName :: "jambEvent \<Rightarrow> subjectSlot \<Rightarrow> string" where
  "subjectName e s =
     subject s @ '' ('' @ number_toString (questionCount s) @ ''/'' @
       number_toString (questionsPerSubject e) @ '')''"

text \<open>
  The handler on the loaded document. On success it runs two statements on the document
  before saving it: \<^verbatim>\<open>if (event.status === 'active') { event.status = 'completed'; }\<close> and
  \<^verbatim>\<open>event.status = 'published';\<close>. The result holds the document after the first
  statement (\<open>e1\<close>) and after the second (\<open>e2\<close>, the one that is saved), so that the
  state between the two statements is part of what the handler is said to do.
\<close>

definition publish_event :: "jambEvent \<Rightarrow> failure + jambEvent \<times> jambEvent" where
  "publish_event e =
     (if length (incompleteSubjects e) > 0
      then Inl (Failure 400
             (''Cannot publish event. The following subjects need more questions: '' @
                join '', '' (map (subjectName e) (incompleteSubjects e))) None)
      else
        let e1 = (if status e = Active then e\<lparr>status := Completed\<rparr> else e);
            e2 = e1\<lparr>status := Published\<rparr>
        in Inr (e1, e2))"

text \<open>
  \<^verbatim>\<open>POST /api/host/events/:eventId/publish\<close>: the event is looked up by its id and the
  host's id together.
\<close>

definition publish :: "db \<Rightarrow> objectId \<Rightarrow> objectId \<Rightarrow> (failure + string) \<times> db" where
  "publish store eventId host =
     (case store eventId of
        None \<Rightarrow> (Inl (Failure 404 ''Event not found'' None), store)
      | Some e \<Rightarrow>
          if hostId e \<noteq> host then (Inl (Failure 404 ''Event not found'' None), store)
          else case publish_event e of
            Inl f \<Rightarrow> (Inl f, store)
          | Inr (e1, e2) \<Rightarrow> (Inr ''Event published successfully'', store(eventId \<mapsto> e2)))"

subsection \<open>Deleting\<close>

text \<open>
  \<^verbatim>\<open>DELETE /api/host/events/:eventId\<close>, as far as the event store goes (the responses and
  the hosted images it also removes are not part of the store).
\<close>

definition delete_event :: "db \<Rightarrow> objectId \<Rightarrow> objectId \<Rightarrow> (failure + string) \<times> db" where
  "delete_event store eventId host =
     (case store eventId of
        None \<Rightarrow> (Inl (Failure 404 ''Event not found'' None), store)
      | Some e \<Rightarrow>
          if hostId e \<noteq> host then (Inl (Failure 404 ''Event not found'' None), store)
          else (Inr ''Event deleted successfully'', store(eventId := None)))"

subsection \<open>The store under a sequence of requests\<close>

text \<open>
  The requests that write events. \<open>Create\<close> carries the \<^verbatim>\<open>_id\<close> the database gives the
  new document, which is an id not in use.
\<close>

datatype request =
    Create objectId string string int int int objectId string
  | Contribute objectId teacher "questionInput list option"
  | Publish objectId objectId
  | Delete objectId objectId

fun step :: "db \<Rightarrow> request \<Rightarrow> db" where
  "step store (Create eventId ttl descr lim qps due host sid) =
     (if store eventId = None
      then store(eventId \<mapsto> create_event ttl descr lim qps due host sid) else store)"
| "step store (Contribute eventId t body) = snd (contribute store eventId t body)"
| "step store (Publish eventId host) = snd (publish store eventId host)"
| "step store (Delete eventId host) = snd (delete_event store eventId host)"

definition run :: "request list \<Rightarrow> db" where
  "run rs = foldl step Map.empty rs"

subsection \<open>Predicates of the properties\<close>

text \<open>A question the checks of \<open>newQuestion\<close> let through, and a batch the handler accepts.\<close>

definition valid_input :: "questionInput \<Rightarrow> bool" where
  "valid_input q =
     (case (in_question q, in_options q, in_correctAnswer q) of
        (Some txt, Some opts, Some c) \<Rightarrow> txt \<noteq> [] \<and> length opts = 4 \<and> 0 \<le> c \<and> c \<le> 3
      | _ \<Rightarrow> False)"

definition valid_batch :: "questionInput list \<Rightarrow> bool" where
  "valid_batch qs = (length qs \<noteq> 0 \<and> list_all valid_input qs)"

text \<open>The gate of the publish handler: \<^verbatim>\<open>incompleteSubjects.length > 0\<close> is false.\<close>

definition canPublish :: "jambEvent \<Rightarrow> bool" where
  "canPublish e = (\<not> length (incompleteSubjects e) > 0)"

text \<open>The two derived counts agree with what they are derived from.\<close>

definition cache_ok :: "jambEvent \<Rightarrow> bool" where
  "cache_ok e =
     (totalQuestions e = sum_list (map questionCount (subjects e)) \<and>
      list_all (\<lambda>s. questionCount s = int (length (questions s))) (subjects e))"

subsection \<open>Example data\<close>

text \<open>
  A valid question, the teacher of a subject, and the store after a host has created one
  event with quota \<open>qps\<close> and the teachers of the last four subjects have each contributed
  \<open>qps\<close> questions: only Mathematics is open.
\<close>

definition sample_input :: "string \<Rightarrow> questionInput" where
  "sample_input txt =
     \<lparr>in_question = Some txt, in_options = Some [''a'', ''b'', ''c'', ''d''],
      in_correctAnswer = Some 1, in_imageUrls = None, in_imagePublicIds = None\<rparr>"

definition staff :: "string \<Rightarrow> teacher" where
  "staff subj = \<lparr>t_id = ''id-'' @ subj, t_name = ''T. '' @ subj, t_subject = subj\<rparr>"

definition others_done_requests :: "nat \<Rightarrow> request list" where
  "others_done_requests qps =
     Create ''e1'' ''Mock'' '''' 60 (int qps) 0 ''h1'' ''s1'' #
     map (\<lambda>s. Contribute ''e1'' (staff s) (Some (replicate qps (sample_input ''q''))))
       [''English'', ''Physics'', ''Chemistry'', ''Biology'']"

definition others_done :: "nat \<Rightarrow> db" where
  "others_done qps = run (others_done_requests qps)"

text \<open>
  With quota 1: the event after the Mathematics teacher has contributed too (every slot
  is at quota), and after the host has then published it. With quota 2: the event in
  which Mathematics holds one question of two.
\<close>

definition completed_store :: db where
  "completed_store =
     run (others_done_requests 1 @
          [Contribute ''e1'' (staff ''Mathematics'') (Some [sample_input ''q1''])])"

definition published_store :: db where
  "published_store =
     run (others_done_requests 1 @
          [Contribute ''e1'' (staff ''Mathematics'') (Some [sample_input ''q1'']),
           Publish ''e1'' ''h1''])"

definition short_store :: db where
  "short_store =
     run (others_done_requests 2 @
          [Contribute ''e1'' (staff ''Mathematics'') (Some [sample_input ''q1''])])"

section \<open>Properties\<close>

subsection \<open>Auxiliary facts\<close>

text \<open>Searching a list, and the validation of a batch.\<close>

lemma findIndex_SomeD:
  "findIndex P xs = Some i \<Longrightarrow> i < length xs \<and> P (xs ! i)"
proof (induction xs arbitrary: i)
  case Nil
  then show ?case by simp
next
  case (Cons x xs)
  then show ?case by (cases "P x") (auto simp: nth_Cons')
qed

lemma findIndex_find:
  "findIndex P xs = Some i \<Longrightarrow> find P xs = Some (xs ! i)"
  by (induction xs arbitrary: i) (auto split: if_splits)

lemma findIndex_None_find:
  "findIndex P xs = None \<longleftrightarrow> find P xs = None"
  by (induction xs) auto

lemma findIndex_update:
  "findIndex P xs = Some i \<Longrightarrow> P y \<Longrightarrow> findIndex P (xs[i := y]) = Some i"
  by (induction xs arbitrary: i) (auto split: if_splits)

lemma newQuestion_Inr_iff:
  "(\<exists>x. newQuestion t q = Inr x) \<longleftrightarrow> valid_input q"
  by (auto simp: newQuestion_def valid_input_def split: option.splits)

lemma newQuestion_teacherId:
  "newQuestion t q = Inr x \<Longrightarrow> teacherId x = Some (t_id t)"
  by (auto simp: newQuestion_def split: option.splits if_splits)

lemma newQuestions_valid:
  "list_all valid_input qs \<Longrightarrow> \<exists>new. newQuestions t qs = Inr new"
proof (induction qs)
  case Nil
  then show ?case by simp
next
  case (Cons q qs)
  from Cons.prems have "valid_input q" and "list_all valid_input qs" by simp_all
  from \<open>valid_input q\<close> obtain x where "newQuestion t q = Inr x"
    using newQuestion_Inr_iff [of t q] by blast
  moreover from Cons.IH [OF \<open>list_all valid_input qs\<close>]
  obtain new where "newQuestions t qs = Inr new" by blast
  ultimately show ?case by simp
qed

lemma newQuestions_Inr_valid:
  "newQuestions t qs = Inr new \<Longrightarrow> list_all valid_input qs"
proof (induction qs arbitrary: new)
  case Nil
  then show ?case by simp
next
  case (Cons q qs)
  then show ?case
    using newQuestion_Inr_iff [of t q] by (auto split: sum.splits)
qed

lemma newQuestions_length:
  "newQuestions t qs = Inr new \<Longrightarrow> length new = length qs"
  by (induction qs arbitrary: new) (auto split: sum.splits)

lemma newQuestions_teacherId:
  "newQuestions t qs = Inr new \<Longrightarrow> \<forall>x \<in> set new. teacherId x = Some (t_id t)"
  by (induction qs arbitrary: new) (auto split: sum.splits dest: newQuestion_teacherId)

lemma filter_new_own:
  "newQuestions t qs = Inr new \<Longrightarrow>
     filter (\<lambda>q. teacherId q \<noteq> None \<and> teacherId q = Some (t_id t)) new = new"
  using newQuestions_teacherId [of t qs new] by (simp add: filter_id_conv)

lemma filter_new_others:
  "newQuestions t qs = Inr new \<Longrightarrow>
     filter (\<lambda>q. teacherId q = None \<or> teacherId q \<noteq> Some (t_id t)) new = []"
  using newQuestions_teacherId [of t qs new] by (simp add: filter_empty_conv)

text \<open>A successful call on the loaded document: what it needed and what it built.\<close>

lemma contribute_event_InrD:
  assumes "contribute_event t qs e = Inr (e', r)"
  shows "status e = Active \<and>
    (\<exists>i new. findIndex (\<lambda>s. subject s = t_subject t) (subjects e) = Some i \<and>
       newQuestions t qs = Inr new)"
  using assms
  by (cases "newQuestions t qs";
      cases "findIndex (\<lambda>s. subject s = t_subject t) (subjects e)";
      cases "status e = Active")
     (simp_all add: contribute_event_def)

lemma contribute_event_success:
  assumes "status e = Active"
    and "findIndex (\<lambda>s. subject s = t_subject t) (subjects e) = Some i"
    and "newQuestions t qs = Inr new"
  defines "kept \<equiv> filter (\<lambda>q. teacherId q = None \<or> teacherId q \<noteq> Some (t_id t))
                     (questions (subjects e ! i))"
  defines "slot1 \<equiv> (subjects e ! i)\<lparr>questions := kept @ new,
                     questionCount := int (length (kept @ new))\<rparr>"
  defines "slot2 \<equiv> slot1\<lparr>teacherContributions :=
                     update_contributions t (int (length qs)) slot1\<rparr>"
  defines "e2 \<equiv> e\<lparr>subjects := (subjects e)[i := slot2],
                   totalQuestions := foldl (\<lambda>total s. total + questionCount s) 0
                                       ((subjects e)[i := slot2])\<rparr>"
  defines "e3 \<equiv> (if allSubjectsComplete e2 then e2\<lparr>status := Completed\<rparr> else e2)"
  shows "contribute_event t qs e =
           Inr (e3, \<lparr>r_questionCount = int (length qs),
                      r_totalSubjectQuestions = questionCount (subjects e3 ! i),
                      r_eventStatus = status e3\<rparr>)"
  using assms(1-3)
  unfolding contribute_event_def Let_def kept_def slot1_def slot2_def e2_def e3_def
  by simp

lemma update_contributions_slot:
  "teacherContributions s' = teacherContributions s \<Longrightarrow>
     update_contributions t n s' = update_contributions t n s"
  by (simp add: update_contributions_def existingContribution_def split: option.splits)

lemma contribute_event_result:
  assumes "contribute_event t qs e = Inr (e', r)"
  obtains i new s' where
    "findIndex (\<lambda>s. subject s = t_subject t) (subjects e) = Some i"
    and "newQuestions t qs = Inr new"
    and "i < length (subjects e)"
    and "subjects e' = (subjects e)[i := s']"
    and "mySubject t e' = Some s'"
    and "subject s' = t_subject t"
    and "questions s' =
           filter (\<lambda>q. teacherId q = None \<or> teacherId q \<noteq> Some (t_id t))
             (questions (subjects e ! i)) @ new"
    and "questionCount s' = int (length (questions s'))"
    and "teacherContributions s' = update_contributions t (int (length qs)) (subjects e ! i)"
    and "totalQuestions e' = foldl (\<lambda>total s. total + questionCount s) 0 (subjects e')"
    and "questionsPerSubject e' = questionsPerSubject e"
    and "e' = e\<lparr>subjects := subjects e', totalQuestions := totalQuestions e',
                     status := status e'\<rparr>"
    and "status e' = (if allSubjectsComplete e' then Completed else Active)"
    and "r = \<lparr>r_questionCount = int (length qs),
               r_totalSubjectQuestions = questionCount s',
               r_eventStatus = status e'\<rparr>"
proof -
  from contribute_event_InrD [OF assms] obtain i new where
    act: "status e = Active"
    and idx: "findIndex (\<lambda>s. subject s = t_subject t) (subjects e) = Some i"
    and new: "newQuestions t qs = Inr new"
    by blast
  from findIndex_SomeD [OF idx] have len: "i < length (subjects e)"
    and subj: "subject (subjects e ! i) = t_subject t" by simp_all
  define kept where "kept = filter (\<lambda>q. teacherId q = None \<or> teacherId q \<noteq> Some (t_id t))
                     (questions (subjects e ! i))"
  define slot1 where "slot1 = (subjects e ! i)\<lparr>questions := kept @ new,
                     questionCount := int (length (kept @ new))\<rparr>"
  define slot2 where "slot2 = slot1\<lparr>teacherContributions :=
                     update_contributions t (int (length qs)) slot1\<rparr>"
  define e2 where "e2 = e\<lparr>subjects := (subjects e)[i := slot2],
                   totalQuestions := foldl (\<lambda>total s. total + questionCount s) 0
                                       ((subjects e)[i := slot2])\<rparr>"
  define e3 where "e3 = (if allSubjectsComplete e2 then e2\<lparr>status := Completed\<rparr> else e2)"
  have "contribute_event t qs e =
          Inr (e3, \<lparr>r_questionCount = int (length qs),
                     r_totalSubjectQuestions = questionCount (subjects e3 ! i),
                     r_eventStatus = status e3\<rparr>)"
    unfolding kept_def slot1_def slot2_def e2_def e3_def
    by (rule contribute_event_success [OF act idx new])
  with assms have "Inr (e', r) = (Inr (e3, \<lparr>r_questionCount = int (length qs),
               r_totalSubjectQuestions = questionCount (subjects e3 ! i),
               r_eventStatus = status e3\<rparr>) :: failure + jambEvent \<times> contributeResponse)"
    by (rule trans [OF sym])
  then have pair: "(e', r) = (e3, \<lparr>r_questionCount = int (length qs),
               r_totalSubjectQuestions = questionCount (subjects e3 ! i),
               r_eventStatus = status e3\<rparr>)"
    by (rule Inr_inject)
  have e': "e' = e3"
    using arg_cong [OF pair, of fst] by simp
  have r: "r = \<lparr>r_questionCount = int (length qs),
               r_totalSubjectQuestions = questionCount (subjects e3 ! i),
               r_eventStatus = status e3\<rparr>"
    using arg_cong [OF pair, of snd] by simp
  have subs: "subjects e3 = (subjects e)[i := slot2]"
    by (simp add: e3_def e2_def)
  have nth: "subjects e3 ! i = slot2"
    using len by (simp add: subs)
  have s2: "subject slot2 = t_subject t"
    by (simp add: slot2_def slot1_def subj)
  have "findIndex (\<lambda>s. subject s = t_subject t) (subjects e3) = Some i"
    unfolding subs using idx s2 by (rule findIndex_update)
  from findIndex_find [OF this] have mine: "mySubject t e3 = Some slot2"
    by (simp add: mySubject_def nth)
  have "update_contributions t (int (length qs)) slot1 =
          update_contributions t (int (length qs)) (subjects e ! i)"
    by (rule update_contributions_slot) (simp add: slot1_def)
  then have tcs: "teacherContributions slot2 =
                    update_contributions t (int (length qs)) (subjects e ! i)"
    by (simp add: slot2_def)
  have asc: "allSubjectsComplete e3 = allSubjectsComplete e2"
    by (simp add: e3_def allSubjectsComplete_def)
  have st: "status e3 = (if allSubjectsComplete e3 then Completed else Active)"
    unfolding asc by (simp add: e3_def e2_def act)
  show thesis
  proof (rule that [of i new slot2])
    show "findIndex (\<lambda>s. subject s = t_subject t) (subjects e) = Some i" by (rule idx)
    show "newQuestions t qs = Inr new" by (rule new)
    show "i < length (subjects e)" by (rule len)
    show "subjects e' = (subjects e)[i := slot2]" by (simp add: e' subs)
    show "mySubject t e' = Some slot2" by (simp add: e' mine)
    show "subject slot2 = t_subject t" by (rule s2)
    show "questions slot2 =
           filter (\<lambda>q. teacherId q = None \<or> teacherId q \<noteq> Some (t_id t))
             (questions (subjects e ! i)) @ new"
      by (simp add: slot2_def slot1_def kept_def)
    show "questionCount slot2 = int (length (questions slot2))"
      by (simp add: slot2_def slot1_def)
    show "teacherContributions slot2 = update_contributions t (int (length qs)) (subjects e ! i)"
      by (rule tcs)
    show "totalQuestions e' = foldl (\<lambda>total s. total + questionCount s) 0 (subjects e')"
      by (simp add: e' e3_def e2_def)
    show "questionsPerSubject e' = questionsPerSubject e"
      by (simp add: e' e3_def e2_def)
    show "e' = e\<lparr>subjects := subjects e', totalQuestions := totalQuestions e',
                      status := status e'\<rparr>"
      by (simp add: e' e3_def e2_def)
    show "status e' = (if allSubjectsComplete e' then Completed else Active)"
      unfolding e' by (rule st)
    show "r = \<lparr>r_questionCount = int (length qs),
               r_totalSubjectQuestions = questionCount slot2,
               r_eventStatus = status e'\<rparr>"
      by (simp add: r e' nth)
  qed
qed

lemma contribute_event_accepts:
  assumes "status e = Active" and "mySubject t e \<noteq> None" and "list_all valid_input qs"
  shows "\<exists>e' r. contribute_event t qs e = Inr (e', r)"
proof -
  obtain i where "findIndex (\<lambda>s. subject s = t_subject t) (subjects e) = Some i"
    using assms(2) findIndex_None_find [of "\<lambda>s. subject s = t_subject t" "subjects e"]
    by (auto simp: mySubject_def)
  moreover obtain new where "newQuestions t qs = Inr new"
    using newQuestions_valid [OF assms(3)] by blast
  ultimately show ?thesis
    using contribute_event_success [OF assms(1)] by blast
qed

lemma contribute_InrD:
  assumes "contribute store eventId t body = (Inr r, store')"
  shows "\<exists>qs e e'. body = Some qs \<and> length qs \<noteq> 0 \<and> store eventId = Some e \<and>
           contribute_event t qs e = Inr (e', r) \<and> store' = store(eventId \<mapsto> e')"
  using assms
  by (auto simp: contribute_def split: option.splits if_splits sum.splits prod.splits)

lemma contribute_accepts:
  assumes "store eventId = Some e" and "status e = Active" and "mySubject t e \<noteq> None"
    and "valid_batch qs"
  shows "\<exists>e' r. contribute_event t qs e = Inr (e', r) \<and>
           contribute store eventId t (Some qs) = (Inr r, store(eventId \<mapsto> e'))"
proof -
  from assms(4) have ne: "length qs \<noteq> 0" and ok: "list_all valid_input qs"
    by (simp_all add: valid_batch_def)
  from contribute_event_accepts [OF assms(2,3) ok]
  obtain e' r where "contribute_event t qs e = Inr (e', r)" by blast
  then show ?thesis
    using assms(1) ne by (simp add: contribute_def)
qed

text \<open>The publish gate, and requests to an event that is not active.\<close>

lemma canPublish_iff: "canPublish e \<longleftrightarrow> allSubjectsComplete e"
  by (auto simp: canPublish_def incompleteSubjects_def allSubjectsComplete_def
        filter_empty_conv list_all_iff not_less)

lemma publish_event_complete:
  "canPublish e \<Longrightarrow>
     publish_event e =
       Inr (if status e = Active then e\<lparr>status := Completed\<rparr> else e,
            e\<lparr>status := Published\<rparr>)"
  by (simp add: publish_event_def canPublish_def Let_def)

lemma contribute_not_active:
  assumes "store eventId = Some e" and "status e \<noteq> Active"
  shows "snd (contribute store eventId t body) = store \<and>
         (\<exists>f. fst (contribute store eventId t body) = Inl f) \<and>
         (\<forall>qs. body = Some qs \<and> length qs \<noteq> 0 \<longrightarrow>
            fst (contribute store eventId t body) =
              Inl (Failure 400 ''Event is not active for contributions'' None))"
  using assms
  by (auto simp: contribute_def contribute_event_def split: option.splits)

lemma publish_status_Published:
  assumes "store eventId = Some e" and "status e = Published"
  shows "map_option status (snd (publish store eventId host) eventId) = Some Published"
  using assms
  by (simp add: publish_def publish_event_def Let_def split: option.splits)

text \<open>The ledger update finds the entry it wrote, and writing it twice changes nothing.\<close>

lemma find_set_first_count:
  "find (\<lambda>tc. tc_teacherId tc = tid) (set_first_count tid n tcs) =
     map_option (\<lambda>tc. tc\<lparr>tc_questionCount := n\<rparr>) (find (\<lambda>tc. tc_teacherId tc = tid) tcs)"
  by (induction tcs) auto

lemma set_first_count_idem:
  "set_first_count tid n (set_first_count tid n tcs) = set_first_count tid n tcs"
  by (induction tcs) auto

lemma set_first_count_append:
  "find (\<lambda>tc. tc_teacherId tc = tid) tcs = None \<Longrightarrow> tc_teacherId new = tid \<Longrightarrow>
     set_first_count tid n (tcs @ [new]) = tcs @ [new\<lparr>tc_questionCount := n\<rparr>]"
  by (induction tcs) (auto split: if_splits)

lemma find_append_new:
  "find P tcs = None \<Longrightarrow> P new \<Longrightarrow> find P (tcs @ [new]) = Some new"
  by (induction tcs) (auto split: if_splits)

lemma update_contributions_entry:
  assumes "teacherContributions s' = update_contributions t n s"
  shows "\<exists>tc. existingContribution t s' = Some tc \<and> tc_questionCount tc = n"
proof (cases "existingContribution t s")
  case None
  then show ?thesis
    using assms find_append_new [of "\<lambda>tc. tc_teacherId tc = t_id t" "teacherContributions s"]
    by (simp add: update_contributions_def existingContribution_def)
next
  case (Some tc)
  then show ?thesis
    using assms
    by (simp add: update_contributions_def existingContribution_def find_set_first_count)
qed

lemma update_contributions_idem:
  assumes "teacherContributions s' = update_contributions t n s"
  shows "update_contributions t n s' = update_contributions t n s"
proof (cases "existingContribution t s")
  case None
  then have n: "find (\<lambda>tc. tc_teacherId tc = t_id t) (teacherContributions s) = None"
    by (simp add: existingContribution_def)
  let ?new = "\<lparr>tc_teacherId = t_id t, tc_teacherName = t_name t, tc_questionCount = n\<rparr>"
  from None assms have tcs: "teacherContributions s' = teacherContributions s @ [?new]"
    by (simp add: update_contributions_def)
  have "find (\<lambda>tc. tc_teacherId tc = t_id t) (teacherContributions s') = Some ?new"
    unfolding tcs by (rule find_append_new [OF n]) simp
  then have "update_contributions t n s' = set_first_count (t_id t) n (teacherContributions s @ [?new])"
    by (simp add: update_contributions_def existingContribution_def tcs)
  also have "\<dots> = teacherContributions s @ [?new\<lparr>tc_questionCount := n\<rparr>]"
    by (rule set_first_count_append [OF n]) simp
  finally show ?thesis
    using None by (simp add: update_contributions_def)
next
  case (Some tc)
  then have tcs: "teacherContributions s' = set_first_count (t_id t) n (teacherContributions s)"
    using assms by (simp add: update_contributions_def)
  from Some have "find (\<lambda>tc. tc_teacherId tc = t_id t) (teacherContributions s') \<noteq> None"
    by (simp add: tcs find_set_first_count existingContribution_def)
  then have "update_contributions t n s' = set_first_count (t_id t) n (teacherContributions s')"
    by (auto simp: update_contributions_def existingContribution_def)
  then show ?thesis
    using Some by (simp add: tcs set_first_count_idem update_contributions_def)
qed

lemma filter_others_idem:
  "filter (\<lambda>q. teacherId q = None \<or> teacherId q \<noteq> Some tid)
     (filter (\<lambda>q. teacherId q = None \<or> teacherId q \<noteq> Some tid) xs) =
   filter (\<lambda>q. teacherId q = None \<or> teacherId q \<noteq> Some tid) xs"
  by simp

lemma filter_own_others:
  "filter (\<lambda>q. teacherId q \<noteq> None \<and> teacherId q = Some tid)
     (filter (\<lambda>q. teacherId q = None \<or> teacherId q \<noteq> Some tid) xs) = []"
  by (auto simp: filter_empty_conv)

text \<open>After a successful call the teacher's questions in the slot are the new ones.\<close>

lemma contribute_event_replaces:
  assumes "contribute_event t qs e = Inr (e', r)"
  shows "newQuestions t qs = Inr (existingQuestions t e')"
  using assms
proof (rule contribute_event_result)
  fix i new s'
  assume new: "newQuestions t qs = Inr new" and mine: "mySubject t e' = Some s'"
    and qs: "questions s' = filter (\<lambda>q. teacherId q = None \<or> teacherId q \<noteq> Some (t_id t))
             (questions (subjects e ! i)) @ new"
  have "existingQuestions t e' =
          filter (\<lambda>q. teacherId q \<noteq> None \<and> teacherId q = Some (t_id t)) (questions s')"
    by (simp add: existingQuestions_def mine)
  also have "\<dots> = new"
    by (simp only: qs filter_append filter_own_others filter_new_own [OF new] append_Nil)
  finally show ?thesis
    using new by simp
qed

text \<open>The same batch once more, on the event it produced.\<close>

lemma contribute_event_idem:
  assumes first: "contribute_event t qs e = Inr (e1, r1)" and act: "status e1 = Active"
  shows "\<exists>r2. contribute_event t qs e1 = Inr (e1, r2)"
  using first
proof (rule contribute_event_result)
  fix i new s1
  assume idx: "findIndex (\<lambda>s. subject s = t_subject t) (subjects e) = Some i"
    and new: "newQuestions t qs = Inr new"
    and len: "i < length (subjects e)"
    and subs1: "subjects e1 = (subjects e)[i := s1]"
    and mine1: "mySubject t e1 = Some s1"
    and subj1: "subject s1 = t_subject t"
    and qs1: "questions s1 =
           filter (\<lambda>q. teacherId q = None \<or> teacherId q \<noteq> Some (t_id t))
             (questions (subjects e ! i)) @ new"
    and cnt1: "questionCount s1 = int (length (questions s1))"
    and tcs1: "teacherContributions s1 = update_contributions t (int (length qs)) (subjects e ! i)"
    and st1: "status e1 = (if allSubjectsComplete e1 then Completed else Active)"
  have nth1: "subjects e1 ! i = s1"
    using len by (simp add: subs1)
  have idx1: "findIndex (\<lambda>s. subject s = t_subject t) (subjects e1) = Some i"
    unfolding subs1 using idx subj1 by (rule findIndex_update)
  from act st1 have open1: "\<not> allSubjectsComplete e1"
    by (auto split: if_splits)
  from mine1 have slot1: "mySubject t e1 \<noteq> None" by simp
  from contribute_event_accepts [OF act slot1 newQuestions_Inr_valid [OF new]]
  obtain e2 r2 where second: "contribute_event t qs e1 = Inr (e2, r2)" by blast
  from second have "e2 = e1"
  proof (rule contribute_event_result)
    fix j new' s2
    assume idx2: "findIndex (\<lambda>s. subject s = t_subject t) (subjects e1) = Some j"
      and new': "newQuestions t qs = Inr new'"
      and subs2: "subjects e2 = (subjects e1)[j := s2]"
      and subj2: "subject s2 = t_subject t"
      and qs2: "questions s2 =
           filter (\<lambda>q. teacherId q = None \<or> teacherId q \<noteq> Some (t_id t))
             (questions (subjects e1 ! j)) @ new'"
      and cnt2: "questionCount s2 = int (length (questions s2))"
      and tcs2: "teacherContributions s2 =
                   update_contributions t (int (length qs)) (subjects e1 ! j)"
      and tot2: "totalQuestions e2 = foldl (\<lambda>total s. total + questionCount s) 0 (subjects e2)"
      and qps2: "questionsPerSubject e2 = questionsPerSubject e1"
      and shape2: "e2 = e1\<lparr>subjects := subjects e2, totalQuestions := totalQuestions e2,
                             status := status e2\<rparr>"
      and st2: "status e2 = (if allSubjectsComplete e2 then Completed else Active)"
    from idx1 idx2 have j: "j = i" by simp
    from new new' have n: "new' = new" by simp
    have "questions s2 =
            filter (\<lambda>q. teacherId q = None \<or> teacherId q \<noteq> Some (t_id t)) (questions s1) @ new"
      by (simp only: qs2 j n nth1)
    also have "\<dots> = questions s1"
      by (simp only: qs1 filter_append filter_others_idem filter_new_others [OF new] append_Nil2)
    finally have q: "questions s2 = questions s1" .
    have c: "questionCount s2 = questionCount s1"
      by (simp only: cnt1 cnt2 q)
    have "teacherContributions s2 = update_contributions t (int (length qs)) s1"
      by (simp only: tcs2 j nth1)
    also have "\<dots> = update_contributions t (int (length qs)) (subjects e ! i)"
      by (rule update_contributions_idem [OF tcs1])
    finally have l: "teacherContributions s2 = teacherContributions s1"
      by (simp only: tcs1)
    have "s2 = s1"
      by (rule subjectSlot.equality) (simp_all add: subj1 subj2 q c l)
    then have subs: "subjects e2 = subjects e1"
      using nth1 by (simp add: subs2 j list_update_same_conv len subs1)
    then have tot: "totalQuestions e2 = totalQuestions e1"
      using first tot2 by (elim contribute_event_result) simp
    have "allSubjectsComplete e2 = allSubjectsComplete e1"
      by (simp add: allSubjectsComplete_def subs qps2)
    with st2 open1 act have "status e2 = status e1" by simp
    with subs tot shape2 show "e2 = e1"
      by simp
  qed
  with second show ?thesis by blast
qed

text \<open>Every request keeps the derived counts of every stored event right.\<close>

lemma foldl_questionCount:
  "foldl (\<lambda>total s. total + questionCount s) a xs = a + sum_list (map questionCount xs)"
  by (induction xs arbitrary: a) auto

lemma list_all_update:
  "list_all P xs \<Longrightarrow> P y \<Longrightarrow> list_all P (xs[i := y])"
  by (induction xs arbitrary: i) (auto split: nat.splits)

lemma create_event_cache_ok: "cache_ok (create_event ttl descr lim qps due host sid)"
  by (simp add: cache_ok_def create_event_def subject_names_def empty_slot_def)

lemma contribute_event_cache_ok:
  assumes "contribute_event t qs e = Inr (e', r)" and "cache_ok e"
  shows "cache_ok e'"
  using assms(1)
proof (rule contribute_event_result)
  fix i s'
  assume subs: "subjects e' = (subjects e)[i := s']"
    and cnt: "questionCount s' = int (length (questions s'))"
    and tot: "totalQuestions e' = foldl (\<lambda>total s. total + questionCount s) 0 (subjects e')"
  from assms(2) have "list_all (\<lambda>s. questionCount s = int (length (questions s))) (subjects e)"
    by (simp add: cache_ok_def)
  then have "list_all (\<lambda>s. questionCount s = int (length (questions s))) (subjects e')"
    unfolding subs using cnt by (rule list_all_update)
  moreover have "totalQuestions e' = sum_list (map questionCount (subjects e'))"
    by (simp add: tot foldl_questionCount)
  ultimately show ?thesis
    by (simp add: cache_ok_def)
qed

lemma publish_event_cache_ok:
  assumes "publish_event e = Inr (e1, e2)" and "cache_ok e"
  shows "cache_ok e2"
  using assms
  by (auto simp: publish_event_def Let_def cache_ok_def split: if_splits)

lemma step_cache_ok:
  assumes "\<forall>k e. store k = Some e \<longrightarrow> cache_ok e"
  shows "\<forall>k e. step store rq k = Some e \<longrightarrow> cache_ok e"
proof (cases rq)
  case (Create eventId ttl descr lim qps due host sid)
  then show ?thesis
    using assms create_event_cache_ok by auto
next
  case (Contribute eventId t body)
  show ?thesis
  proof (cases "fst (contribute store eventId t body)")
    case (Inl f)
    then have "snd (contribute store eventId t body) = store"
      by (auto simp: contribute_def split: option.splits if_splits sum.splits prod.splits)
    with Contribute assms show ?thesis by simp
  next
    case (Inr r)
    then have "contribute store eventId t body = (Inr r, snd (contribute store eventId t body))"
      by (simp add: prod_eq_iff)
    from contribute_InrD [OF this] obtain qs e e' where
      "store eventId = Some e" and "contribute_event t qs e = Inr (e', r)"
      and "snd (contribute store eventId t body) = store(eventId \<mapsto> e')"
      by blast
    with Contribute assms contribute_event_cache_ok show ?thesis
      by auto
  qed
next
  case (Publish eventId host)
  then show ?thesis
    using assms publish_event_cache_ok
    by (auto simp: publish_def split: option.splits if_splits sum.splits prod.splits)
next
  case (Delete eventId host)
  then show ?thesis
    using assms
    by (auto simp: delete_event_def split: option.splits if_splits)
qed

lemma foldl_step_cache_ok:
  "\<forall>k e. store k = Some e \<longrightarrow> cache_ok e \<Longrightarrow>
     \<forall>k e. foldl step store rs k = Some e \<longrightarrow> cache_ok e"
proof (induction rs arbitrary: store)
  case Nil
  then show ?case by simp
next
  case (Cons rq rs)
  from step_cache_ok [OF Cons.prems] have "\<forall>k e. step store rq k = Some e \<longrightarrow> cache_ok e" .
  from Cons.IH [OF this] show ?case by simp
qed

text \<open>A batch with a question that does not pass the checks.\<close>

lemma newQuestion_Inl_message:
  "newQuestion t q = Inl m \<Longrightarrow>
     m \<in> set [''Invalid question data: missing required fields'',
              ''Each question must have exactly 4 options'',
              ''Correct answer must be between 0 and 3'']"
  by (auto simp: newQuestion_def split: option.splits if_splits)

lemma newQuestions_Inl_message:
  "newQuestions t qs = Inl m \<Longrightarrow>
     m \<in> set [''Invalid question data: missing required fields'',
              ''Each question must have exactly 4 options'',
              ''Correct answer must be between 0 and 3'']"
proof (induction qs)
  case Nil
  then show ?case by simp
next
  case (Cons q qs)
  show ?case
  proof (cases "newQuestion t q")
    case (Inl m')
    with Cons.prems have "m' = m" by simp
    with Inl show ?thesis by (simp only: newQuestion_Inl_message)
  next
    case (Inr x)
    with Cons.prems have "newQuestions t qs = Inl m"
      by (simp split: sum.splits)
    then show ?thesis by (rule Cons.IH)
  qed
qed

lemma newQuestions_invalid:
  assumes "q \<in> set qs" and "\<not> valid_input q"
  shows "\<exists>m. newQuestions t qs = Inl m"
proof (cases "newQuestions t qs")
  case (Inl m)
  then show ?thesis by blast
next
  case (Inr new)
  from newQuestions_Inr_valid [OF this] assms show ?thesis
    by (simp add: list_all_iff)
qed

lemma contribute_invalid:
  assumes "q \<in> set qs" and "\<not> valid_input q"
  shows "snd (contribute store eventId t (Some qs)) = store \<and>
         (\<exists>f. fst (contribute store eventId t (Some qs)) = Inl f) \<and>
         ((\<exists>e. store eventId = Some e \<and> status e = Active \<and> mySubject t e \<noteq> None) \<longrightarrow>
            (\<exists>m. fst (contribute store eventId t (Some qs)) =
                    Inl (Failure 500 ''Failed to save questions'' (Some m)) \<and>
                 m \<in> set [''Invalid question data: missing required fields'',
                          ''Each question must have exactly 4 options'',
                          ''Correct answer must be between 0 and 3'']))"
proof -
  from newQuestions_invalid [OF assms] obtain m where m: "newQuestions t qs = Inl m" by blast
  then have ev: "\<exists>f. contribute_event t qs e = Inl f" for e
    by (simp add: contribute_event_def Let_def split: option.splits)
  have fails: "\<exists>f. fst (contribute store eventId t (Some qs)) = Inl f"
  proof (cases "store eventId")
    case None
    then show ?thesis by (simp add: contribute_def)
  next
    case (Some e)
    with ev [of e] show ?thesis by (auto simp: contribute_def)
  qed
  then have same: "snd (contribute store eventId t (Some qs)) = store"
    by (auto simp: contribute_def split: option.splits if_splits sum.splits prod.splits)
  have "\<exists>m. fst (contribute store eventId t (Some qs)) =
                  Inl (Failure 500 ''Failed to save questions'' (Some m)) \<and>
               m \<in> set [''Invalid question data: missing required fields'',
                        ''Each question must have exactly 4 options'',
                        ''Correct answer must be between 0 and 3'']"
    if e: "store eventId = Some e" and act: "status e = Active" and slot: "mySubject t e \<noteq> None"
    for e
  proof -
    from slot obtain i where "findIndex (\<lambda>s. subject s = t_subject t) (subjects e) = Some i"
      using findIndex_None_find [of "\<lambda>s. subject s = t_subject t" "subjects e"]
      by (auto simp: mySubject_def)
    with act m have "contribute_event t qs e =
        Inl (Failure 500 ''Failed to save questions'' (Some m))"
      by (simp add: contribute_event_def)
    moreover from assms(1) have "length qs \<noteq> 0" by auto
    ultimately have "fst (contribute store eventId t (Some qs)) =
        Inl (Failure 500 ''Failed to save questions'' (Some m))"
      using e by (simp add: contribute_def)
    with newQuestions_Inl_message [OF m] show ?thesis by blast
  qed
  with fails same show ?thesis by blast
qed

text \<open>The definitions a concrete request is evaluated with.\<close>

lemma replicate_numeral_Cons:
  "replicate (numeral k) x = x # replicate (pred_numeral k) x"
  by (simp add: numeral_eq_Suc)

lemmas example_defs =
  others_done_def others_done_requests_def run_def staff_def sample_input_def
  contribute_def contribute_event_def create_event_def subject_names_def empty_slot_def
  newQuestion_def update_contributions_def existingContribution_def allSubjectsComplete_def
  trim_def is_space_def Let_def publish_def publish_event_def incompleteSubjects_def
  subjectName_def number_toString_def digit_char_def
  mySubject_def existingQuestions_def valid_batch_def valid_input_def canPublish_def cache_ok_def
  replicate_numeral_Cons completed_store_def published_store_def short_store_def

subsection \<open>Completion happens inside the contributing call\<close>

text \<open>
  Claim C2. A successful contribute request to an active event stores the event with
  status \<open>Completed\<close> when every slot of the stored event has
  \<open>questionCount \<ge> questionsPerSubject\<close>, and with status \<open>Active\<close> when some slot is
  still below the quota; the response reports that same status. No separate request is
  involved.
\<close>

theorem contribute_completes_in_same_call:
  assumes "store eventId = Some e" and "status e = Active"
    and "contribute store eventId t body = (Inr r, store')"
  shows "\<exists>e'. store' eventId = Some e' \<and> r_eventStatus r = status e' \<and>
           status e' = (if allSubjectsComplete e' then Completed else Active)"
proof -
  from contribute_InrD [OF assms(3)] assms(1) obtain qs e' where
    ev: "contribute_event t qs e = Inr (e', r)" and st: "store' = store(eventId \<mapsto> e')"
    by auto
  from ev show ?thesis
    by (rule contribute_event_result) (simp add: st)
qed

text \<open>
  With quota 1 the Mathematics teacher's single question is the last one missing; with
  quota 2 the same request leaves Mathematics short.
\<close>

theorem contribute_completes_in_same_call_witness:
  "status (the (others_done 1 ''e1'')) = Active
   \<and> fst (contribute (others_done 1) ''e1'' (staff ''Mathematics'') (Some [sample_input ''q1'']))
       = Inr \<lparr>r_questionCount = 1, r_totalSubjectQuestions = 1, r_eventStatus = Completed\<rparr>
   \<and> map_option status
         (snd (contribute (others_done 1) ''e1'' (staff ''Mathematics'')
                 (Some [sample_input ''q1''])) ''e1'') = Some Completed
   \<and> status (the (others_done 2 ''e1'')) = Active
   \<and> fst (contribute (others_done 2) ''e1'' (staff ''Mathematics'') (Some [sample_input ''q1'']))
       = Inr \<lparr>r_questionCount = 1, r_totalSubjectQuestions = 1, r_eventStatus = Active\<rparr>
   \<and> map_option status
         (snd (contribute (others_done 2) ''e1'' (staff ''Mathematics'')
                 (Some [sample_input ''q1''])) ''e1'') = Some Active"
proof -
  let ?c1 = "contribute (others_done 1) ''e1'' (staff ''Mathematics'') (Some [sample_input ''q1''])"
  let ?c2 = "contribute (others_done 2) ''e1'' (staff ''Mathematics'') (Some [sample_input ''q1''])"
  let ?r1 = "\<lparr>r_questionCount = 1, r_totalSubjectQuestions = 1, r_eventStatus = Completed\<rparr>"
  let ?r2 = "\<lparr>r_questionCount = 1, r_totalSubjectQuestions = 1, r_eventStatus = Active\<rparr>"
  have s1: "others_done 1 ''e1'' = Some (the (others_done 1 ''e1''))"
    and s2: "others_done 2 ''e1'' = Some (the (others_done 2 ''e1''))"
    by (simp_all add: example_defs)
  have a1: "status (the (others_done 1 ''e1'')) = Active"
    and a2: "status (the (others_done 2 ''e1'')) = Active"
    by (simp_all add: example_defs)
  have f1: "fst ?c1 = Inr ?r1" and f2: "fst ?c2 = Inr ?r2"
    by (simp_all add: example_defs)
  have c1: "?c1 = (Inr ?r1, snd ?c1)" and c2: "?c2 = (Inr ?r2, snd ?c2)"
    using f1 f2 by (simp_all add: prod_eq_iff)
  from contribute_completes_in_same_call [OF s1 a1 c1]
  have "map_option status (snd ?c1 ''e1'') = Some Completed" by auto
  moreover from contribute_completes_in_same_call [OF s2 a2 c2]
  have "map_option status (snd ?c2 ''e1'') = Some Active" by auto
  ultimately show ?thesis
    using a1 a2 f1 f2 by simp
qed

subsection \<open>A failed contribution writes nothing\<close>

text \<open>
  Claim C4. Whatever makes a contribute request fail (no batch or an empty one, no such
  event, an event that is not active, no slot for the teacher's subject, a question that
  does not pass the checks), the store after the request is the store before it: the
  handler changes only its local copy of the document until \<^verbatim>\<open>event.save()\<close>, and every
  failure leaves before that.
\<close>

theorem contribute_failure_keeps_store:
  assumes "fst (contribute store eventId t body) = Inl f"
  shows "snd (contribute store eventId t body) = store"
  using assms
  by (auto simp: contribute_def split: option.splits if_splits sum.splits prod.splits)

text \<open>A batch whose second question has three options, sent to an active event.\<close>

theorem contribute_failure_keeps_store_witness:
  "fst (contribute (others_done 1) ''e1'' (staff ''Mathematics'')
          (Some [sample_input ''q1'',
                 (sample_input ''q2'')\<lparr>in_options := Some [''a'', ''b'', ''c'']\<rparr>]))
     = Inl (Failure 500 ''Failed to save questions''
              (Some ''Each question must have exactly 4 options''))
   \<and> snd (contribute (others_done 1) ''e1'' (staff ''Mathematics'')
          (Some [sample_input ''q1'',
                 (sample_input ''q2'')\<lparr>in_options := Some [''a'', ''b'', ''c'']\<rparr>]))
     = others_done 1"
proof -
  have h: "fst (contribute (others_done 1) ''e1'' (staff ''Mathematics'')
          (Some [sample_input ''q1'',
                 (sample_input ''q2'')\<lparr>in_options := Some [''a'', ''b'', ''c'']\<rparr>]))
     = Inl (Failure 500 ''Failed to save questions''
              (Some ''Each question must have exactly 4 options''))"
    by (simp add: example_defs)
  show ?thesis
    using h contribute_failure_keeps_store [OF h] by simp
qed

subsection \<open>No upper bound on the size of a batch\<close>

text \<open>
  Claim C10. On an active event with a slot for the teacher's subject, every valid batch
  is accepted, whatever its length: the only condition on the size is that the batch is
  not empty. The slot then holds at least the whole batch, so its \<open>questionCount\<close> can
  exceed \<open>questionsPerSubject\<close>, and the status is \<open>Completed\<close> exactly when every slot has
  reached the quota (\<open>\<ge>\<close>, not \<open>=\<close>).
\<close>

theorem contribute_accepts_any_size:
  assumes "store eventId = Some e" and "status e = Active" and "mySubject t e \<noteq> None"
    and "valid_batch qs"
  shows "\<exists>r e' s'. contribute store eventId t (Some qs) = (Inr r, store(eventId \<mapsto> e')) \<and>
           mySubject t e' = Some s' \<and> int (length qs) \<le> questionCount s' \<and>
           r_questionCount r = int (length qs) \<and> r_totalSubjectQuestions r = questionCount s' \<and>
           r_eventStatus r = status e' \<and>
           status e' = (if allSubjectsComplete e' then Completed else Active)"
proof -
  from assms contribute_accepts [of store eventId e t qs] obtain e' r where
    ev: "contribute_event t qs e = Inr (e', r)"
    and c: "contribute store eventId t (Some qs) = (Inr r, store(eventId \<mapsto> e'))"
    by blast
  from ev show ?thesis
  proof (rule contribute_event_result)
    fix i new s'
    assume "newQuestions t qs = Inr new" and "mySubject t e' = Some s'"
      and "questions s' = filter (\<lambda>q. teacherId q = None \<or> teacherId q \<noteq> Some (t_id t))
             (questions (subjects e ! i)) @ new"
      and "questionCount s' = int (length (questions s'))"
      and "status e' = (if allSubjectsComplete e' then Completed else Active)"
      and "r = \<lparr>r_questionCount = int (length qs),
               r_totalSubjectQuestions = questionCount s', r_eventStatus = status e'\<rparr>"
    then show ?thesis
      using c newQuestions_length [of t qs new]
      by (intro exI [of _ r] exI [of _ e'] exI [of _ s']) simp
  qed
qed

text \<open>Three questions for a quota of one: accepted, the slot counts 3, the event completes.\<close>

theorem contribute_accepts_any_size_witness:
  "questionsPerSubject (the (others_done 1 ''e1'')) = 1
   \<and> length (replicate 3 (sample_input ''q'')) = 3
   \<and> contribute (others_done 1) ''e1'' (staff ''Mathematics'')
         (Some (replicate 3 (sample_input ''q'')))
       = (Inr \<lparr>r_questionCount = 3, r_totalSubjectQuestions = 3, r_eventStatus = Completed\<rparr>,
          snd (contribute (others_done 1) ''e1'' (staff ''Mathematics'')
                 (Some (replicate 3 (sample_input ''q'')))))
   \<and> map_option (\<lambda>e. (map_option questionCount (mySubject (staff ''Mathematics'') e), status e))
         (snd (contribute (others_done 1) ''e1'' (staff ''Mathematics'')
                 (Some (replicate 3 (sample_input ''q'')))) ''e1'')
       = Some (Some 3, Completed)"
proof -
  let ?qs = "replicate 3 (sample_input ''q'')"
  let ?c = "contribute (others_done 1) ''e1'' (staff ''Mathematics'') (Some ?qs)"
  let ?r = "\<lparr>r_questionCount = 3, r_totalSubjectQuestions = 3, r_eventStatus = Completed\<rparr>"
  have s: "others_done 1 ''e1'' = Some (the (others_done 1 ''e1''))"
    by (simp add: example_defs)
  have a: "status (the (others_done 1 ''e1'')) = Active"
    and q: "questionsPerSubject (the (others_done 1 ''e1'')) = 1"
    and m: "mySubject (staff ''Mathematics'') (the (others_done 1 ''e1'')) \<noteq> None"
    by (simp_all add: example_defs)
  have v: "valid_batch ?qs"
    by (simp add: example_defs)
  have f: "fst ?c = Inr ?r"
    by (simp add: example_defs)
  from contribute_accepts_any_size [of "others_done 1" "''e1''", OF s a m v]
  obtain r e' s' where
    c: "?c = (Inr r, (others_done 1)(''e1'' \<mapsto> e'))"
    and e': "mySubject (staff ''Mathematics'') e' = Some s'"
         "r_totalSubjectQuestions r = questionCount s'"
         "r_eventStatus r = status e'"
    by blast
  from c f have r: "r = ?r" by simp
  with e' c q show ?thesis by simp
qed

subsection \<open>Publishing below quota\<close>

text \<open>
  Claim C5. When some slot of the event has \<open>questionCount < questionsPerSubject\<close>, the
  gate \<open>canPublish\<close> is closed and the publish request of the event's host fails with
  status 400 and leaves the store, hence the event's status, as it was. The error text
  lists the slots below quota, all of them and no other, each as its subject, the count it
  has and the count it needs: \<open>subject (have/need)\<close>.
\<close>

theorem publish_below_quota_fails:
  assumes "store eventId = Some e" and "hostId e = host"
    and "\<exists>s \<in> set (subjects e). questionCount s < questionsPerSubject e"
  shows "\<not> canPublish e \<and>
    publish store eventId host =
      (Inl (Failure 400
         (''Cannot publish event. The following subjects need more questions: '' @
            join '', '' (map (subjectName e) (incompleteSubjects e))) None), store) \<and>
    set (incompleteSubjects e) =
      {s \<in> set (subjects e). questionCount s < questionsPerSubject e} \<and>
    map (subjectName e) (incompleteSubjects e) =
      map (\<lambda>(name, have, need).
             name @ '' ('' @ number_toString have @ ''/'' @ number_toString need @ '')'')
        (map (\<lambda>s. (subject s, questionCount s, questionsPerSubject e))
           (filter (\<lambda>s. questionCount s < questionsPerSubject e) (subjects e)))"
proof -
  from assms(3) have ne: "incompleteSubjects e \<noteq> []"
    by (auto simp: incompleteSubjects_def filter_empty_conv)
  then have gate: "\<not> canPublish e"
    by (simp add: canPublish_def)
  from ne assms(1,2) have "publish store eventId host =
      (Inl (Failure 400
         (''Cannot publish event. The following subjects need more questions: '' @
            join '', '' (map (subjectName e) (incompleteSubjects e))) None), store)"
    by (simp add: publish_def publish_event_def)
  moreover have "set (incompleteSubjects e) =
      {s \<in> set (subjects e). questionCount s < questionsPerSubject e}"
    by (auto simp: incompleteSubjects_def)
  moreover have "map (subjectName e) (incompleteSubjects e) =
      map (\<lambda>(name, have, need).
             name @ '' ('' @ number_toString have @ ''/'' @ number_toString need @ '')'')
        (map (\<lambda>s. (subject s, questionCount s, questionsPerSubject e))
           (filter (\<lambda>s. questionCount s < questionsPerSubject e) (subjects e)))"
    by (simp add: incompleteSubjects_def subjectName_def)
  ultimately show ?thesis using gate by blast
qed

text \<open>Mathematics at 1 of 2, the other subjects at 2 of 2.\<close>

theorem publish_below_quota_fails_witness:
  "map (\<lambda>s. (subject s, questionCount s)) (subjects (the (short_store ''e1''))) =
     [(''Mathematics'', 1), (''English'', 2), (''Physics'', 2), (''Chemistry'', 2),
      (''Biology'', 2)]
   \<and> questionsPerSubject (the (short_store ''e1'')) = 2
   \<and> \<not> canPublish (the (short_store ''e1''))
   \<and> publish short_store ''e1'' ''h1'' =
       (Inl (Failure 400
          ''Cannot publish event. The following subjects need more questions: Mathematics (1/2)''
          None), short_store)"
proof -
  have s: "short_store ''e1'' = Some (the (short_store ''e1''))"
    and h: "hostId (the (short_store ''e1'')) = ''h1''"
    and q: "questionsPerSubject (the (short_store ''e1'')) = 2"
    and c: "map (\<lambda>s. (subject s, questionCount s)) (subjects (the (short_store ''e1''))) =
     [(''Mathematics'', 1), (''English'', 2), (''Physics'', 2), (''Chemistry'', 2),
      (''Biology'', 2)]"
    by (simp_all add: example_defs)
  have b: "\<exists>s \<in> set (subjects (the (short_store ''e1''))).
             questionCount s < questionsPerSubject (the (short_store ''e1''))"
    by (simp add: example_defs)
  have m: "join '', '' (map (subjectName (the (short_store ''e1'')))
                          (incompleteSubjects (the (short_store ''e1'')))) = ''Mathematics (1/2)''"
    by (simp add: example_defs)
  from publish_below_quota_fails [of short_store "''e1''", OF s h b] m q c
  show ?thesis by simp
qed

subsection \<open>Publishing a complete event\<close>

text \<open>
  Claim C9. When no slot is below quota, the publish request of the event's host succeeds
  and stores the event with status \<open>Published\<close>. That holds from \<open>Completed\<close> and from
  \<open>Active\<close> alike. From \<open>Active\<close> the document passes through \<open>Completed\<close> inside the
  call: after the handler's first statement it is the event with status \<open>Completed\<close>,
  after the second the event with status \<open>Published\<close>, which is saved. \<open>Published\<close> is
  terminal: afterwards every contribute request leaves the store unchanged and every
  publish request leaves the status \<open>Published\<close>.
\<close>

theorem publish_complete_succeeds:
  assumes "store eventId = Some e" and "hostId e = host" and "canPublish e"
  shows "publish store eventId host =
           (Inr ''Event published successfully'',
            store(eventId \<mapsto> e\<lparr>status := Published\<rparr>)) \<and>
         map_option status (snd (publish store eventId host) eventId) = Some Published \<and>
         publish_event e =
           Inr (if status e = Active then e\<lparr>status := Completed\<rparr> else e,
                e\<lparr>status := Published\<rparr>) \<and>
         (status e = Active \<longrightarrow>
            map_sum id (\<lambda>(e1, e2). (status e1, status e2)) (publish_event e) =
              Inr (Completed, Published)) \<and>
         (\<forall>t body. snd (contribute (snd (publish store eventId host)) eventId t body) =
                     snd (publish store eventId host)) \<and>
         (\<forall>h. map_option status
                 (snd (publish (snd (publish store eventId host)) eventId h) eventId) =
               Some Published)"
proof -
  let ?e' = "e\<lparr>status := Published\<rparr>"
  let ?store' = "store(eventId \<mapsto> ?e')"
  note ev = publish_event_complete [OF assms(3)]
  from assms(1,2) have p: "publish store eventId host =
      (Inr ''Event published successfully'', ?store')"
    by (simp add: publish_def ev)
  have at: "?store' eventId = Some ?e'" and st: "status ?e' = Published"
    and na: "status ?e' \<noteq> Active"
    by simp_all
  have "\<forall>t body. snd (contribute ?store' eventId t body) = ?store'"
    using contribute_not_active [of ?store' eventId, OF at na] by blast
  moreover have "\<forall>h. map_option status (snd (publish ?store' eventId h) eventId) =
                   Some Published"
    using publish_status_Published [of ?store' eventId, OF at st] by blast
  moreover have "status e = Active \<longrightarrow>
            map_sum id (\<lambda>(e1, e2). (status e1, status e2)) (publish_event e) =
              Inr (Completed, Published)"
    by (simp add: ev)
  ultimately show ?thesis
    using ev by (simp add: p)
qed

text \<open>
  An active event that is complete from its creation (quota 0): it is \<open>Completed\<close>
  between the two statements. And the event completed by its last contribution (quota 1).
\<close>

theorem publish_complete_succeeds_witness:
  "map_option status (others_done 0 ''e1'') = Some Active
   \<and> canPublish (the (others_done 0 ''e1''))
   \<and> map_sum id (\<lambda>(e1, e2). (status e1, status e2))
         (publish_event (the (others_done 0 ''e1''))) = Inr (Completed, Published)
   \<and> fst (publish (others_done 0) ''e1'' ''h1'') = Inr ''Event published successfully''
   \<and> map_option status (snd (publish (others_done 0) ''e1'' ''h1'') ''e1'') = Some Published
   \<and> snd (contribute (snd (publish (others_done 0) ''e1'' ''h1'')) ''e1'' (staff ''Mathematics'')
            (Some [sample_input ''late''])) = snd (publish (others_done 0) ''e1'' ''h1'')
   \<and> map_option status (completed_store ''e1'') = Some Completed
   \<and> canPublish (the (completed_store ''e1''))
   \<and> fst (publish completed_store ''e1'' ''h1'') = Inr ''Event published successfully''
   \<and> map_option status (snd (publish completed_store ''e1'' ''h1'') ''e1'') = Some Published"
proof -
  have s: "others_done 0 ''e1'' = Some (the (others_done 0 ''e1''))"
    and h: "hostId (the (others_done 0 ''e1'')) = ''h1''"
    and a: "status (the (others_done 0 ''e1'')) = Active"
    and c: "canPublish (the (others_done 0 ''e1''))"
    by (simp_all add: example_defs)
  have s': "completed_store ''e1'' = Some (the (completed_store ''e1''))"
    and h': "hostId (the (completed_store ''e1'')) = ''h1''"
    and a': "status (the (completed_store ''e1'')) = Completed"
    and c': "canPublish (the (completed_store ''e1''))"
    by (simp_all add: example_defs)
  note p0 = publish_complete_succeeds [of "others_done 0" "''e1''", OF s h c]
  note p1 = publish_complete_succeeds [of completed_store "''e1''", OF s' h' c']
  have "map_option status (others_done 0 ''e1'') = Some Active"
    and "map_option status (completed_store ''e1'') = Some Completed"
    using s a s' a' by (metis option.simps(9))+
  moreover have "publish (others_done 0) ''e1'' ''h1'' =
          (Inr ''Event published successfully'', snd (publish (others_done 0) ''e1'' ''h1''))"
    using p0 by (simp add: prod_eq_iff)
  then have "fst (publish (others_done 0) ''e1'' ''h1'') = Inr ''Event published successfully''"
    by (simp add: prod_eq_iff)
  moreover have "map_option status (snd (publish (others_done 0) ''e1'' ''h1'') ''e1'') =
                   Some Published"
    using p0 by blast
  moreover have "map_sum id (\<lambda>(e1, e2). (status e1, status e2))
         (publish_event (the (others_done 0 ''e1''))) = Inr (Completed, Published)"
    using p0 a by blast
  moreover have "snd (contribute (snd (publish (others_done 0) ''e1'' ''h1'')) ''e1''
            (staff ''Mathematics'') (Some [sample_input ''late''])) =
         snd (publish (others_done 0) ''e1'' ''h1'')"
    using p0 by blast
  moreover have "publish completed_store ''e1'' ''h1'' =
          (Inr ''Event published successfully'', snd (publish completed_store ''e1'' ''h1''))"
    using p1 by (simp add: prod_eq_iff)
  then have "fst (publish completed_store ''e1'' ''h1'') = Inr ''Event published successfully''"
    by (simp add: prod_eq_iff)
  moreover have "map_option status (snd (publish completed_store ''e1'' ''h1'') ''e1'') =
                   Some Published"
    using p1 by blast
  ultimately show ?thesis
    using c c' by blast
qed

subsection \<open>Only an active event takes contributions\<close>

text \<open>
  Claim C7, amended. On an event whose status is \<open>Completed\<close> or \<open>Published\<close>, every
  contribute request is rejected with status 400 and leaves the store unchanged. The
  rejection is the lifecycle error \<^verbatim>\<open>Event is not active for contributions\<close> whenever the
  request carries a non-empty batch; a request without a batch, or with an empty one, is
  turned away earlier, before the event is loaded, with \<^verbatim>\<open>No questions provided\<close>.
\<close>

theorem contribute_rejected_unless_active:
  assumes "store eventId = Some e" and "status e = Completed \<or> status e = Published"
  shows "contribute store eventId t body =
           (Inl (if body = None \<or> body = Some []
                 then Failure 400 ''No questions provided'' None
                 else Failure 400 ''Event is not active for contributions'' None),
            store)"
proof -
  from assms(2) have na: "status e \<noteq> Active" by auto
  show ?thesis
  proof (cases body)
    case None
    then show ?thesis by (simp add: contribute_def)
  next
    case (Some qs)
    with assms(1) na show ?thesis
      by (cases qs) (simp_all add: contribute_def contribute_event_def)
  qed
qed

text \<open>
  A late question for the completed and for the published event; a request without a
  batch and one with an empty batch for the completed event.
\<close>

theorem contribute_rejected_unless_active_witness:
  "map_option status (completed_store ''e1'') = Some Completed
   \<and> contribute completed_store ''e1'' (staff ''Mathematics'') (Some [sample_input ''late''])
       = (Inl (Failure 400 ''Event is not active for contributions'' None), completed_store)
   \<and> contribute completed_store ''e1'' (staff ''Mathematics'') None
       = (Inl (Failure 400 ''No questions provided'' None), completed_store)
   \<and> contribute completed_store ''e1'' (staff ''Mathematics'') (Some [])
       = (Inl (Failure 400 ''No questions provided'' None), completed_store)
   \<and> map_option status (published_store ''e1'') = Some Published
   \<and> contribute published_store ''e1'' (staff ''English'') (Some [sample_input ''late''])
       = (Inl (Failure 400 ''Event is not active for contributions'' None), published_store)"
proof -
  have s1: "completed_store ''e1'' = Some (the (completed_store ''e1''))"
    and a1: "status (the (completed_store ''e1'')) = Completed"
    and s2: "published_store ''e1'' = Some (the (published_store ''e1''))"
    and a2: "status (the (published_store ''e1'')) = Published"
    by (simp_all add: example_defs)
  from a1 have d1: "status (the (completed_store ''e1'')) = Completed \<or>
                    status (the (completed_store ''e1'')) = Published" by simp
  from a2 have d2: "status (the (published_store ''e1'')) = Completed \<or>
                    status (the (published_store ''e1'')) = Published" by simp
  note r1 = contribute_rejected_unless_active [of completed_store "''e1''", OF s1 d1]
  note r2 = contribute_rejected_unless_active [of published_store "''e1''", OF s2 d2]
  have "contribute completed_store ''e1'' (staff ''Mathematics'') (Some [sample_input ''late''])
       = (Inl (Failure 400 ''Event is not active for contributions'' None), completed_store)"
    using r1 [of "staff ''Mathematics''" "Some [sample_input ''late'']"] by simp
  moreover have "contribute completed_store ''e1'' (staff ''Mathematics'') None
       = (Inl (Failure 400 ''No questions provided'' None), completed_store)"
    using r1 [of "staff ''Mathematics''" None] by simp
  moreover have "contribute completed_store ''e1'' (staff ''Mathematics'') (Some [])
       = (Inl (Failure 400 ''No questions provided'' None), completed_store)"
    using r1 [of "staff ''Mathematics''" "Some []"] by simp
  moreover have "contribute published_store ''e1'' (staff ''English'') (Some [sample_input ''late''])
       = (Inl (Failure 400 ''Event is not active for contributions'' None), published_store)"
    using r2 [of "staff ''English''" "Some [sample_input ''late'']"] by simp
  moreover have "map_option status (completed_store ''e1'') = Some Completed"
    and "map_option status (published_store ''e1'') = Some Published"
    using s1 a1 s2 a2 by (metis option.simps(9))+
  ultimately show ?thesis by blast
qed

text \<open>
  The claim as first stated (every request is rejected with the lifecycle error) fails for
  a request without a batch and for one with an empty batch, sent to a completed event:
  both get \<^verbatim>\<open>No questions provided\<close>.
\<close>

theorem contribute_rejected_unless_active_counterexample:
  "map_option status (completed_store ''e1'') = Some Completed
   \<and> fst (contribute completed_store ''e1'' (staff ''Mathematics'') (Some []))
       = Inl (Failure 400 ''No questions provided'' None)
   \<and> fst (contribute completed_store ''e1'' (staff ''Mathematics'') (Some []))
       \<noteq> Inl (Failure 400 ''Event is not active for contributions'' None)
   \<and> fst (contribute completed_store ''e1'' (staff ''Mathematics'') None)
       = Inl (Failure 400 ''No questions provided'' None)
   \<and> fst (contribute completed_store ''e1'' (staff ''Mathematics'') None)
       \<noteq> Inl (Failure 400 ''Event is not active for contributions'' None)"
  by (simp add: example_defs)

subsection \<open>The same batch twice\<close>

text \<open>
  Claim C8. On an active event with a slot for the teacher's subject, sending the same
  valid batch twice in a row leaves the store after the second request equal to the store
  after the first: the slot's \<open>questionCount\<close> and the teacher's ledger entry are as the
  first request left them. That entry holds the length of the batch: it is inserted when
  the teacher had none and overwritten otherwise, never added to.
\<close>

theorem contribute_twice_same_batch:
  assumes "store eventId = Some e" and "status e = Active" and "mySubject t e \<noteq> None"
    and "valid_batch qs"
    and "contribute store eventId t (Some qs) = (r1, store1)"
    and "contribute store1 eventId t (Some qs) = (r2, store2)"
  shows "store2 = store1 \<and>
         (\<exists>e1 s1 tc. store1 eventId = Some e1 \<and> mySubject t e1 = Some s1 \<and>
            questionCount s1 = int (length (questions s1)) \<and>
            existingContribution t s1 = Some tc \<and> tc_questionCount tc = int (length qs))"
proof -
  from contribute_accepts [of store eventId, OF assms(1-4)] assms(5)
  obtain e1 r where ev: "contribute_event t qs e = Inr (e1, r)"
    and store1: "store1 = store(eventId \<mapsto> e1)"
    by auto
  have at1: "store1 eventId = Some e1" by (simp add: store1)
  from assms(4) have ne: "length qs \<noteq> 0" by (simp add: valid_batch_def)
  have same: "store2 = store1"
  proof (cases "status e1 = Active")
    case True
    from contribute_event_idem [OF ev True] obtain r' where
      "contribute_event t qs e1 = Inr (e1, r')" by blast
    with at1 ne assms(6) show ?thesis
      by (auto simp: contribute_def)
  next
    case False
    with contribute_not_active [of store1 eventId, OF at1] assms(6) show ?thesis
      by (metis snd_conv)
  qed
  from ev have "\<exists>s1 tc. mySubject t e1 = Some s1 \<and>
            questionCount s1 = int (length (questions s1)) \<and>
            existingContribution t s1 = Some tc \<and> tc_questionCount tc = int (length qs)"
  proof (rule contribute_event_result)
    fix i s1
    assume "mySubject t e1 = Some s1"
      and "questionCount s1 = int (length (questions s1))"
      and "teacherContributions s1 = update_contributions t (int (length qs)) (subjects e ! i)"
    then show ?thesis
      using update_contributions_entry [of s1 t "int (length qs)" "subjects e ! i"] by blast
  qed
  with same at1 show ?thesis by blast
qed

text \<open>One question for a quota of two, sent twice.\<close>

theorem contribute_twice_same_batch_witness:
  "status (the (others_done 2 ''e1'')) = Active
   \<and> valid_batch [sample_input ''q1'']
   \<and> snd (contribute
            (snd (contribute (others_done 2) ''e1'' (staff ''Mathematics'')
                    (Some [sample_input ''q1''])))
            ''e1'' (staff ''Mathematics'') (Some [sample_input ''q1'']))
       = snd (contribute (others_done 2) ''e1'' (staff ''Mathematics'')
                (Some [sample_input ''q1'']))
   \<and> map_option
         (\<lambda>e. map_option
                (\<lambda>s. (questionCount s,
                       map_option tc_questionCount
                         (existingContribution (staff ''Mathematics'') s)))
                (mySubject (staff ''Mathematics'') e))
         (snd (contribute (others_done 2) ''e1'' (staff ''Mathematics'')
                 (Some [sample_input ''q1''])) ''e1'')
       = Some (Some (1, Some 1))"
proof -
  let ?T = "staff ''Mathematics''"
  let ?qs = "[sample_input ''q1'']"
  let ?c1 = "contribute (others_done 2) ''e1'' ?T (Some ?qs)"
  let ?c2 = "contribute (snd ?c1) ''e1'' ?T (Some ?qs)"
  have s: "others_done 2 ''e1'' = Some (the (others_done 2 ''e1''))"
    and a: "status (the (others_done 2 ''e1'')) = Active"
    and m: "mySubject ?T (the (others_done 2 ''e1'')) \<noteq> None"
    and v: "valid_batch ?qs"
    by (simp_all add: example_defs)
  have c1: "?c1 = (fst ?c1, snd ?c1)" and c2: "?c2 = (fst ?c2, snd ?c2)"
    by simp_all
  note twice = contribute_twice_same_batch [of "others_done 2" "''e1''", OF s a m v c1 c2]
  have same: "snd ?c2 = snd ?c1"
    using twice by blast
  have "map_option
         (\<lambda>e. map_option
                (\<lambda>s. (questionCount s, map_option tc_questionCount (existingContribution ?T s)))
                (mySubject ?T e))
         (snd ?c1 ''e1'') = Some (Some (1, Some 1))"
    by (simp add: example_defs)
  with a v same show ?thesis by blast
qed

subsection \<open>A resubmission replaces\<close>

text \<open>
  Claim C1, amended. On an active event with a slot for the teacher's subject, let the
  teacher send a valid batch \<open>A\<close> and then a valid batch \<open>B\<close>. If the event is still
  active after the first request, the second succeeds and the questions attributed to the
  teacher in the slot are then exactly those made from \<open>B\<close> (trimmed, with the teacher's
  id and name): none of \<open>A\<close> is left.
\<close>

theorem resubmission_replaces:
  assumes "store eventId = Some e" and "status e = Active" and "mySubject t e \<noteq> None"
    and "valid_batch A" and "valid_batch B"
    and "contribute store eventId t (Some A) = (r1, store1)"
    and "map_option status (store1 eventId) = Some Active"
    and "contribute store1 eventId t (Some B) = (r2, store2)"
  shows "\<exists>r e2. r2 = Inr r \<and> store2 eventId = Some e2 \<and>
           newQuestions t B = Inr (existingQuestions t e2)"
proof -
  from contribute_accepts [of store eventId, OF assms(1-4)] assms(6)
  obtain e1 r where ev: "contribute_event t A e = Inr (e1, r)"
    and store1: "store1 = store(eventId \<mapsto> e1)"
    by auto
  have at1: "store1 eventId = Some e1" by (simp add: store1)
  with assms(7) have act1: "status e1 = Active" by simp
  from ev have slot1: "mySubject t e1 \<noteq> None"
    by (rule contribute_event_result) simp
  from contribute_accepts [of store1 eventId, OF at1 act1 slot1 assms(5)] assms(8)
  obtain e2 r' where ev2: "contribute_event t B e1 = Inr (e2, r')"
    and r2: "r2 = Inr r'" and store2: "store2 = store1(eventId \<mapsto> e2)"
    by auto
  from contribute_event_replaces [OF ev2] r2 store2 show ?thesis
    by simp
qed

text \<open>Two questions, then one, for a quota of three.\<close>

theorem resubmission_replaces_witness:
  "status (the (others_done 3 ''e1'')) = Active
   \<and> valid_batch [sample_input ''a1'', sample_input ''a2'']
   \<and> valid_batch [sample_input ''b1'']
   \<and> map_option status
        (snd (contribute (others_done 3) ''e1'' (staff ''Mathematics'')
                (Some [sample_input ''a1'', sample_input ''a2''])) ''e1'') = Some Active
   \<and> newQuestions (staff ''Mathematics'') [sample_input ''b1''] =
       Inr (existingQuestions (staff ''Mathematics'')
              (the (snd (contribute
                      (snd (contribute (others_done 3) ''e1'' (staff ''Mathematics'')
                              (Some [sample_input ''a1'', sample_input ''a2''])))
                      ''e1'' (staff ''Mathematics'') (Some [sample_input ''b1''])) ''e1'')))
   \<and> map question
        (existingQuestions (staff ''Mathematics'')
           (the (snd (contribute (others_done 3) ''e1'' (staff ''Mathematics'')
                        (Some [sample_input ''a1'', sample_input ''a2''])) ''e1'')))
       = [''a1'', ''a2'']"
proof -
  let ?T = "staff ''Mathematics''"
  let ?A = "[sample_input ''a1'', sample_input ''a2'']"
  let ?B = "[sample_input ''b1'']"
  let ?c1 = "contribute (others_done 3) ''e1'' ?T (Some ?A)"
  let ?c2 = "contribute (snd ?c1) ''e1'' ?T (Some ?B)"
  have s: "others_done 3 ''e1'' = Some (the (others_done 3 ''e1''))"
    and a: "status (the (others_done 3 ''e1'')) = Active"
    and m: "mySubject ?T (the (others_done 3 ''e1'')) \<noteq> None"
    and vA: "valid_batch ?A" and vB: "valid_batch ?B"
    by (simp_all add: example_defs)
  have still: "map_option status (snd ?c1 ''e1'') = Some Active"
    and before: "map question (existingQuestions ?T (the (snd ?c1 ''e1''))) = [''a1'', ''a2'']"
    by (simp_all add: example_defs)
  have c1: "?c1 = (fst ?c1, snd ?c1)" and c2: "?c2 = (fst ?c2, snd ?c2)"
    by simp_all
  from resubmission_replaces [of "others_done 3" "''e1''", OF s a m vA vB c1 still c2]
  have "newQuestions ?T ?B = Inr (existingQuestions ?T (the (snd ?c2 ''e1'')))"
    by auto
  with a vA vB still before show ?thesis by blast
qed

text \<open>
  Without the condition the claim fails: with a quota of two, the two questions of \<open>A\<close>
  complete the event, the request with \<open>B\<close> is turned away, and the questions of \<open>A\<close>
  stay.
\<close>

theorem resubmission_replaces_counterexample:
  "status (the (others_done 2 ''e1'')) = Active
   \<and> mySubject (staff ''Mathematics'') (the (others_done 2 ''e1'')) \<noteq> None
   \<and> valid_batch [sample_input ''a1'', sample_input ''a2'']
   \<and> valid_batch [sample_input ''b1'']
   \<and> fst (contribute
            (snd (contribute (others_done 2) ''e1'' (staff ''Mathematics'')
                    (Some [sample_input ''a1'', sample_input ''a2''])))
            ''e1'' (staff ''Mathematics'') (Some [sample_input ''b1'']))
       = Inl (Failure 400 ''Event is not active for contributions'' None)
   \<and> map question
        (existingQuestions (staff ''Mathematics'')
           (the (snd (contribute
                   (snd (contribute (others_done 2) ''e1'' (staff ''Mathematics'')
                           (Some [sample_input ''a1'', sample_input ''a2''])))
                   ''e1'' (staff ''Mathematics'') (Some [sample_input ''b1''])) ''e1'')))
       = [''a1'', ''a2'']
   \<and> newQuestions (staff ''Mathematics'') [sample_input ''b1''] \<noteq>
       Inr (existingQuestions (staff ''Mathematics'')
           (the (snd (contribute
                   (snd (contribute (others_done 2) ''e1'' (staff ''Mathematics'')
                           (Some [sample_input ''a1'', sample_input ''a2''])))
                   ''e1'' (staff ''Mathematics'') (Some [sample_input ''b1''])) ''e1'')))"
  by (simp add: example_defs)

subsection \<open>The derived counts\<close>

text \<open>
  Claim C3. In every store that requests to the handlers can produce (events are created
  by the create handler and changed only by contribute and publish), hence after every
  successful contribute or publish request, each event's \<open>totalQuestions\<close> is the sum of
  the \<open>questionCount\<close> of its slots, and each slot's \<open>questionCount\<close> is the length of
  its \<open>questions\<close>.
\<close>

theorem derived_counts_agree:
  assumes "run rs eventId = Some e"
  shows "totalQuestions e = sum_list (map questionCount (subjects e)) \<and>
         (\<forall>s \<in> set (subjects e). questionCount s = int (length (questions s)))"
proof -
  have "\<forall>k e. Map.empty k = Some e \<longrightarrow> cache_ok e" by simp
  from foldl_step_cache_ok [OF this, of rs] assms have "cache_ok e"
    by (simp add: run_def)
  then show ?thesis
    by (simp add: cache_ok_def list_all_iff)
qed

text \<open>The event with quota 1 after five contributions and its publication.\<close>

theorem derived_counts_agree_witness:
  "map_option status (published_store ''e1'') = Some Published
   \<and> totalQuestions (the (published_store ''e1'')) = 5
   \<and> totalQuestions (the (published_store ''e1'')) =
       sum_list (map questionCount (subjects (the (published_store ''e1''))))
   \<and> map questionCount (subjects (the (published_store ''e1''))) = [1, 1, 1, 1, 1]
   \<and> map (\<lambda>s. int (length (questions s))) (subjects (the (published_store ''e1'')))
       = [1, 1, 1, 1, 1]"
proof -
  let ?rs = "others_done_requests 1 @
          [Contribute ''e1'' (staff ''Mathematics'') (Some [sample_input ''q1'']),
           Publish ''e1'' ''h1'']"
  have s: "published_store ''e1'' = Some (the (published_store ''e1''))"
    and p: "map_option status (published_store ''e1'') = Some Published"
    and t: "totalQuestions (the (published_store ''e1'')) = 5"
    and c: "map questionCount (subjects (the (published_store ''e1''))) = [1, 1, 1, 1, 1]"
    and l: "map (\<lambda>s. int (length (questions s))) (subjects (the (published_store ''e1'')))
       = [1, 1, 1, 1, 1]"
    by (simp_all add: example_defs)
  from s have "run ?rs ''e1'' = Some (the (published_store ''e1''))"
    by (simp only: published_store_def)
  from derived_counts_agree [OF this] p t c l show ?thesis by blast
qed

subsection \<open>Questions that fail validation\<close>

text \<open>
  Claim C6. A batch containing a question with an empty question text, with a number of
  options other than 4, with an option that is empty after trimming, or with
  \<open>correctAnswer\<close> outside \<open>0..3\<close> is to be refused as invalid input, the refusal naming
  the position of the failing question, and the event left unchanged. The page's own
  \<^verbatim>\<open>saveQuestions\<close> does refuse a blank option and names the question
  (\<^verbatim>\<open>Question N: All options must be filled\<close>), and the handler's other guards answer
  with status 400. The handler's validation falls short of that, as the requests below
  show on the active event with quota 2 in which Mathematics is still empty:
  \<^item> a question whose first option is a single blank is accepted; it is stored with that
    option trimmed to the empty text and the slot then counts one question;
  \<^item> a batch whose first question has three options and a batch whose second question
    has three options get the same answer, status 500 with the error
    \<^verbatim>\<open>Failed to save questions\<close> and the details
    \<^verbatim>\<open>Each question must have exactly 4 options\<close>: the position is not told.
\<close>

theorem contribute_blank_option_accepted:
  "map_option status (others_done 2 ''e1'') = Some Active
   \<and> fst (contribute (others_done 2) ''e1'' (staff ''Mathematics'')
          (Some [(sample_input ''q1'')\<lparr>in_options := Some ['' '', ''b'', ''c'', ''d'']\<rparr>]))
     = Inr \<lparr>r_questionCount = 1, r_totalSubjectQuestions = 1, r_eventStatus = Active\<rparr>
   \<and> map options
        (existingQuestions (staff ''Mathematics'')
           (the (snd (contribute (others_done 2) ''e1'' (staff ''Mathematics'')
              (Some [(sample_input ''q1'')\<lparr>in_options := Some ['' '', ''b'', ''c'', ''d'']\<rparr>]))
              ''e1'')))
     = [['''', ''b'', ''c'', ''d'']]
   \<and> fst (contribute (others_done 2) ''e1'' (staff ''Mathematics'')
          (Some [(sample_input ''q1'')\<lparr>in_options := Some [''a'', ''b'', ''c'']\<rparr>,
                 sample_input ''q2'']))
     = Inl (Failure 500 ''Failed to save questions''
              (Some ''Each question must have exactly 4 options''))
   \<and> fst (contribute (others_done 2) ''e1'' (staff ''Mathematics'')
          (Some [sample_input ''q1'',
                 (sample_input ''q2'')\<lparr>in_options := Some [''a'', ''b'', ''c'']\<rparr>]))
     = Inl (Failure 500 ''Failed to save questions''
              (Some ''Each question must have exactly 4 options''))"
  by (simp add: example_defs)

end
